theory Spec2Isabelle
  imports Complex_Main
begin

section \<open>Python values and errors\<close>

text \<open>
  The exceptions that the two modules, and the library calls they make, can raise.
\<close>

datatype py_error = AssertionError | ValueError | TypeError | RuntimeError | IndexError

section \<open>replay\_buffer.py\<close>

subsection \<open>Experience and buffer\<close>

text \<open>
  \<^verbatim>\<open>namedtuple("Experience", field_names=["state", "action", "reward", "next_state", "done"])\<close>.
  A state is a one-dimensional numeric array, an action an integer, a reward a number,
  \<open>done\<close> a boolean. Numbers are taken as exact reals: the buffer only stores and copies them.
\<close>

record experience =
  state :: "real list"
  action :: int
  reward :: real
  next_state :: "real list"
  done_flag :: bool

text \<open>
  The attributes set by \<^verbatim>\<open>ReplayBuffer.__init__\<close>. \<open>memory\<close> is the deque's contents, oldest
  first, and \<open>maxlen\<close> the deque's bound. \<open>seed\<close> holds what \<^verbatim>\<open>random.seed(seed)\<close> returns,
  which is \<^verbatim>\<open>None\<close>.
\<close>

record replay_buffer =
  action_size :: int
  memory :: "experience list"
  maxlen :: nat
  batch_size :: int
  device :: string
  seed :: "int option"

subsection \<open>The module \<^verbatim>\<open>random\<close>\<close>

text \<open>
  The module \<^verbatim>\<open>random\<close> keeps one generator for the whole process. Its state is a value of
  type \<open>'g\<close>, threaded through every call that touches it. The generator itself is not part of
  the repository, so it is a parameter: \<open>seed_fn s\<close> is the state after \<^verbatim>\<open>random.seed(s)\<close>, and
  \<open>randbelow g n\<close> is the number that \<^verbatim>\<open>_randbelow(n)\<close> returns in state \<open>g\<close>, with the state
  that follows.
\<close>

record 'g pyrandom =
  seed_fn :: "int \<Rightarrow> 'g"
  randbelow :: "'g \<Rightarrow> nat \<Rightarrow> nat \<times> 'g"


text \<open>
  The selection loop of \<^verbatim>\<open>random.sample\<close> over a copy of the population:
  \<^verbatim>\<open>
  for i in range(k):
      j = randbelow(n - i)
      result[i] = pool[j]
      pool[j] = pool[n - i - 1]
  \<close>
  \<open>pool_loop R n i r pool g\<close> runs the \<open>r\<close> iterations that start at index \<open>i\<close>.
  Reading \<open>pool[j]\<close> beyond the pool raises \<^verbatim>\<open>IndexError\<close>. (For a population much
  larger than \<open>k\<close> the library instead draws positions until \<open>k\<close> different ones are found;
  both ways return the entries at \<open>k\<close> different positions.)
\<close>

fun pool_loop ::
  "'g pyrandom \<Rightarrow> nat \<Rightarrow> nat \<Rightarrow> nat \<Rightarrow> 'a list \<Rightarrow> 'g \<Rightarrow> (py_error + 'a list) \<times> 'g" where
  "pool_loop R n i 0 pool g = (Inr [], g)"
| "pool_loop R n i (Suc r) pool g =
     (case randbelow R g (n - i) of (j, g') \<Rightarrow>
        if j < length pool then
          (case pool_loop R n (Suc i) r (pool[j := pool ! (n - i - 1)]) g' of
             (Inl e, g'') \<Rightarrow> (Inl e, g'')
           | (Inr res, g'') \<Rightarrow> (Inr (pool ! j # res), g''))
        else (Inl IndexError, g'))"

text \<open>
  \<^verbatim>\<open>random.sample(population, k)\<close>: \<^verbatim>\<open>ValueError\<close> unless \<open>0 \<le> k \<le> len(population)\<close>, raised
  before the generator is used; otherwise \<open>k\<close> picks by the selection loop.
\<close>

definition random_sample ::
  "'g pyrandom \<Rightarrow> 'a list \<Rightarrow> int \<Rightarrow> 'g \<Rightarrow> (py_error + 'a list) \<times> 'g" where
  "random_sample R population k g =
     (let n = length population in
      if \<not> (0 \<le> k \<and> k \<le> int n) then (Inl ValueError, g)
      else pool_loop R n 0 (nat k) population g)"

subsection \<open>numpy and torch conversions\<close>

text \<open>
  \<^verbatim>\<open>np.vstack\<close> of a list of one-dimensional arrays: one row per array. It raises
  \<^verbatim>\<open>ValueError\<close> on an empty list and on rows of different lengths.
\<close>

definition vstack :: "'a list list \<Rightarrow> py_error + 'a list list" where
  "vstack rows =
     (case rows of
        [] \<Rightarrow> Inl ValueError
      | r # rs \<Rightarrow> if \<forall>r' \<in> set rs. length r' = length r then Inr rows else Inl ValueError)"

text \<open>\<^verbatim>\<open>np.vstack\<close> of a list of scalars: each scalar becomes a row of one entry.\<close>

definition vstack_scalars :: "'a list \<Rightarrow> py_error + 'a list list" where
  "vstack_scalars xs = vstack (map (\<lambda>x. [x]) xs)"

text \<open>The five tensors that \<open>sample\<close> returns, each as its list of rows.\<close>

record batch =
  states :: "real list list"
  actions :: "int list list"
  rewards :: "real list list"
  next_states :: "real list list"
  dones :: "real list list"

subsection \<open>The methods of \<^verbatim>\<open>ReplayBuffer\<close>\<close>

text \<open>
  \<^verbatim>\<open>deque(maxlen=buffer_size)\<close> raises \<^verbatim>\<open>ValueError\<close> for a negative bound; the constructor
  then stops before it reaches \<^verbatim>\<open>random.seed(seed)\<close>. Otherwise the process-wide generator is
  reseeded. The result is paired with the generator state after the call.
\<close>

definition ReplayBuffer_init ::
  "'g pyrandom \<Rightarrow> int \<Rightarrow> int \<Rightarrow> int \<Rightarrow> int \<Rightarrow> string \<Rightarrow> 'g \<Rightarrow> (py_error + replay_buffer) \<times> 'g" where
  "ReplayBuffer_init R a_size buffer_size b_size sd dev g =
     (if buffer_size < 0 then (Inl ValueError, g)
      else (Inr \<lparr>action_size = a_size, memory = [], maxlen = nat buffer_size,
                 batch_size = b_size, device = dev, seed = None\<rparr>,
            seed_fn R sd))"

text \<open>
  \<^verbatim>\<open>deque.append\<close> on a bounded deque: the element goes to the right end, and when the deque
  is then longer than its bound, the leftmost element is dropped.
\<close>

definition deque_append :: "nat \<Rightarrow> 'a list \<Rightarrow> 'a \<Rightarrow> 'a list" where
  "deque_append ml d x = (let d' = d @ [x] in if ml < length d' then tl d' else d')"

definition add ::
  "replay_buffer \<Rightarrow> real list \<Rightarrow> int \<Rightarrow> real \<Rightarrow> real list \<Rightarrow> bool \<Rightarrow> replay_buffer" where
  "add b s a r s' d =
     (let e = \<lparr>state = s, action = a, reward = r, next_state = s', done_flag = d\<rparr>
      in b\<lparr>memory := deque_append (maxlen b) (memory b) e\<rparr>)"

definition len :: "replay_buffer \<Rightarrow> int" where
  "len b = int (length (memory b))"

definition is_ready_to_sample :: "replay_buffer \<Rightarrow> bool" where
  "is_ready_to_sample b \<longleftrightarrow> len b > batch_size b"

text \<open>
  \<open>sample\<close> takes the buffer and the state of the process-wide generator and returns its
  result with the buffer and the generator state after the call. The filter
  \<^verbatim>\<open>if e is not None\<close> keeps every drawn entry, since \<open>add\<close> only stores tuples.
  \<^verbatim>\<open>astype(np.uint8)\<close> followed by \<^verbatim>\<open>float()\<close> turns \<open>done\<close> into 0 or 1; moving a tensor
  to the device does not change its rows. \<open>stack_columns\<close> is the five assignments that
  follow the draw, in their order.
\<close>

definition stack_columns :: "experience list \<Rightarrow> py_error + batch" where
  "stack_columns experiences =
     (case vstack (map state experiences) of Inl e \<Rightarrow> Inl e | Inr sts \<Rightarrow>
      case vstack_scalars (map action experiences) of Inl e \<Rightarrow> Inl e | Inr acs \<Rightarrow>
      case vstack_scalars (map reward experiences) of Inl e \<Rightarrow> Inl e | Inr rws \<Rightarrow>
      case vstack (map next_state experiences) of Inl e \<Rightarrow> Inl e | Inr nsts \<Rightarrow>
      case vstack_scalars (map (\<lambda>e. of_bool (done_flag e)) experiences) of
        Inl e \<Rightarrow> Inl e
      | Inr dns \<Rightarrow> Inr \<lparr>states = sts, actions = acs, rewards = rws,
                         next_states = nsts, dones = dns\<rparr>)"

definition sample ::
  "'g pyrandom \<Rightarrow> replay_buffer \<times> 'g \<Rightarrow> (py_error + batch) \<times> replay_buffer \<times> 'g" where
  "sample R bg =
     (case bg of (b, g) \<Rightarrow>
      (case random_sample R (memory b) (batch_size b) g of
         (Inl e, g') \<Rightarrow> (Inl e, b, g')
       | (Inr experiences, g') \<Rightarrow> (stack_columns experiences, b, g')))"

subsection \<open>Sequences of calls\<close>

text \<open>One \<open>add\<close> call per experience of a list, in order.\<close>

definition add_exp :: "replay_buffer \<Rightarrow> experience \<Rightarrow> replay_buffer" where
  "add_exp b e = add b (state e) (action e) (reward e) (next_state e) (done_flag e)"

definition add_all :: "replay_buffer \<Rightarrow> experience list \<Rightarrow> replay_buffer" where
  "add_all b es = foldl add_exp b es"

text \<open>
  A generator for running the definitions on concrete inputs: its state is a counter, a draw
  is the counter modulo the bound, and seeding sets the counter.
\<close>

definition counter_random :: "nat pyrandom" where
  "counter_random = \<lparr>seed_fn = (\<lambda>s. nat \<bar>s\<bar>), randbelow = (\<lambda>g n. (g mod n, Suc g))\<rparr>"

text \<open>The experience tagged \<open>t\<close>, for scenarios that insert experiences tagged 0, 1, 2, ...\<close>

definition tagged :: "nat \<Rightarrow> experience" where
  "tagged t = \<lparr>state = [real t], action = int t, reward = 0, next_state = [real t + 1],
               done_flag = False\<rparr>"

subsection \<open>Notions for stating the properties\<close>




text \<open>
  A buffer of capacity \<open>cap\<close> and batch size \<open>k\<close> after inserting the experiences tagged
  \<open>0, \<dots>, n - 1\<close>.
\<close>

definition demo_buffer :: "nat \<Rightarrow> int \<Rightarrow> nat \<Rightarrow> replay_buffer" where
  "demo_buffer cap k n =
     add_all \<lparr>action_size = 4, memory = [], maxlen = cap, batch_size = k, device = ''cpu'',
              seed = None\<rparr> (map tagged [0..<n])"

section \<open>model.py\<close>

subsection \<open>Arguments, tensors and linear layers\<close>

text \<open>
  \<open>fc_units\<close> reaches the constructors unchecked, so it is a Python value: the assertions
  and \<^verbatim>\<open>nn.Linear\<close> decide what is accepted.
\<close>

datatype py_value =
  PyInt int | PyFloat real | PyStr string | PyNone
  | PyList "py_value list" | PyTuple "py_value list"

text \<open>
  A tensor of one dimension (a single state) or of two (a batch: one row per sample).
  Entries are exact reals: rounding of floating-point arithmetic is not modelled. A batch
  without rows carries no column count.
\<close>

datatype tensor = T1 "real list" | T2 "real list list"

record linear =
  in_features :: nat
  out_features :: nat
  weight :: "real list list"
  bias :: "real list"

text \<open>
  The values that a layer's parameters hold: entry \<open>(i, j)\<close> of the weight matrix and entry
  \<open>i\<close> of the bias. They come from torch's initialisers (and later from training), which
  are not part of the repository, so they are a parameter.
\<close>

record layer_values =
  w_val :: "nat \<Rightarrow> nat \<Rightarrow> real"
  b_val :: "nat \<Rightarrow> real"

text \<open>
  \<^verbatim>\<open>nn.Linear(in_features, out_features)\<close> allocates a weight matrix of \<open>out_features\<close> rows
  and \<open>in_features\<close> columns and a bias of \<open>out_features\<close> entries. A size that is not an
  integer is a \<^verbatim>\<open>TypeError\<close>, a negative one a \<^verbatim>\<open>RuntimeError\<close>.
\<close>

definition nn_Linear :: "layer_values \<Rightarrow> py_value \<Rightarrow> py_value \<Rightarrow> py_error + linear" where
  "nn_Linear v inp out =
     (case (inp, out) of
        (PyInt n, PyInt m) \<Rightarrow>
          if n < 0 \<or> m < 0 then Inl RuntimeError
          else Inr \<lparr>in_features = nat n, out_features = nat m,
                    weight = map (\<lambda>r. map (w_val v r) [0..<nat n]) [0..<nat m],
                    bias = map (b_val v) [0..<nat m]\<rparr>
      | _ \<Rightarrow> Inl TypeError)"

text \<open>
  \<^verbatim>\<open>torch.nn.init.xavier_normal_(w)\<close> draws new entries for \<open>w\<close> and keeps its shape.
\<close>

definition xavier_normal :: "(nat \<Rightarrow> nat \<Rightarrow> real) \<Rightarrow> real list list \<Rightarrow> real list list" where
  "xavier_normal f w = map (\<lambda>r. map (f r) [0..<length (w ! r)]) [0..<length w]"

text \<open>One row through a layer: \<open>x W\<^sup>T + b\<close>.\<close>

definition linear_row :: "linear \<Rightarrow> real list \<Rightarrow> real list" where
  "linear_row l x = map (\<lambda>(w, b). sum_list (map (\<lambda>(p, q). p * q) (zip w x)) + b)
                        (zip (weight l) (bias l))"

text \<open>
  Calling a layer: the last dimension of the input must be \<open>in_features\<close>, otherwise the
  matrix product raises \<^verbatim>\<open>RuntimeError\<close>.
\<close>

fun linear_apply :: "linear \<Rightarrow> tensor \<Rightarrow> py_error + tensor" where
  "linear_apply l (T1 x) =
     (if length x = in_features l then Inr (T1 (linear_row l x)) else Inl RuntimeError)"
| "linear_apply l (T2 xs) =
     (if \<forall>x \<in> set xs. length x = in_features l then Inr (T2 (map (linear_row l) xs))
      else Inl RuntimeError)"

fun relu :: "tensor \<Rightarrow> tensor" where
  "relu (T1 x) = T1 (map (max 0) x)"
| "relu (T2 xs) = T2 (map (map (max 0)) xs)"

text \<open>
  The loop \<^verbatim>\<open>for fc_layer in layers: x = F.relu(fc_layer(x))\<close>.
\<close>

fun relu_chain :: "linear list \<Rightarrow> tensor \<Rightarrow> py_error + tensor" where
  "relu_chain [] x = Inr x"
| "relu_chain (l # ls) x =
     (case linear_apply l x of Inl e \<Rightarrow> Inl e | Inr y \<Rightarrow> relu_chain ls (relu y))"

text \<open>
  The comprehension \<^verbatim>\<open>[nn.Linear(fc_units[idx], fc_units[idx + 1]) for idx in range(len(fc_units) - 1)]\<close>:
  one layer per pair of neighbours, stopping at the first error. The layer made from the
  pair at \<open>idx\<close> takes its values from \<open>P (k + idx)\<close>.
\<close>

fun hidden_layers :: "(nat \<Rightarrow> layer_values) \<Rightarrow> nat \<Rightarrow> py_value list \<Rightarrow> py_error + linear list" where
  "hidden_layers P k (u # v # us) =
     (case nn_Linear (P k) u v of
        Inl e \<Rightarrow> Inl e
      | Inr l \<Rightarrow> (case hidden_layers P (Suc k) (v # us) of
                    Inl e \<Rightarrow> Inl e
                  | Inr ls \<Rightarrow> Inr (l # ls)))"
| "hidden_layers P k us = Inr []"

subsection \<open>QNetwork\<close>

record q_network =
  fc_layers :: "linear list"

definition QNetwork_init_fc_layers ::
  "(nat \<Rightarrow> layer_values) \<Rightarrow> int \<Rightarrow> int \<Rightarrow> py_value \<Rightarrow> py_error + q_network" where
  "QNetwork_init_fc_layers P state_size a_size fc_units =
     (case fc_units of
        PyList us \<Rightarrow>
          if \<not> length us > 0 then Inl AssertionError
          else (case nn_Linear (P 0) (PyInt state_size) (hd us) of
                  Inl e \<Rightarrow> Inl e
                | Inr first \<Rightarrow>
                    (case hidden_layers P 1 us of
                       Inl e \<Rightarrow> Inl e
                     | Inr mids \<Rightarrow>
                         (case nn_Linear (P (length us)) (last us) (PyInt a_size) of
                            Inl e \<Rightarrow> Inl e
                          | Inr final \<Rightarrow> Inr \<lparr>fc_layers = first # mids @ [final]\<rparr>)))
      | _ \<Rightarrow> Inl AssertionError)"

text \<open>
  \<^verbatim>\<open>QNetwork.__init__\<close>: \<^verbatim>\<open>torch.manual_seed(seed)\<close> fixes the values that the initialisers
  draw, so the values are a function \<open>W\<close> of the seed.
\<close>

definition QNetwork_init ::
  "(int \<Rightarrow> nat \<Rightarrow> layer_values) \<Rightarrow> int \<Rightarrow> int \<Rightarrow> int \<Rightarrow> py_value \<Rightarrow> py_error + q_network" where
  "QNetwork_init W state_size a_size sd fc_units =
     QNetwork_init_fc_layers (W sd) state_size a_size fc_units"

text \<open>
  \<^verbatim>\<open>QNetwork.forward\<close>. \<^verbatim>\<open>self.fc_layers[-1]\<close> on an empty list raises \<^verbatim>\<open>IndexError\<close>.
\<close>

definition forward :: "q_network \<Rightarrow> tensor \<Rightarrow> py_error + tensor" where
  "forward net st =
     (case relu_chain (butlast (fc_layers net)) st of
        Inl e \<Rightarrow> Inl e
      | Inr x \<Rightarrow> if fc_layers net = [] then Inl IndexError
                 else linear_apply (last (fc_layers net)) x)"

subsection \<open>DuelingQNetwork\<close>

record dueling_q_network =
  fc_layers_d :: "linear list"
  value_layer1 :: linear
  value_layer2 :: linear
  action_layer1 :: linear
  action_layer2 :: linear

text \<open>
  \<^verbatim>\<open>DuelingQNetwork._init_fc_layers\<close>. The trunk has no layer to \<open>action_size\<close>; the four
  head layers follow it, and the weights of the first layer of each head are drawn anew by
  \<open>xavier_normal\<close> (from \<open>X 0\<close> and \<open>X 1\<close>).
\<close>

definition DuelingQNetwork_init_fc_layers ::
  "(nat \<Rightarrow> layer_values) \<Rightarrow> (nat \<Rightarrow> nat \<Rightarrow> nat \<Rightarrow> real) \<Rightarrow> int \<Rightarrow> int \<Rightarrow> py_value
     \<Rightarrow> py_error + dueling_q_network" where
  "DuelingQNetwork_init_fc_layers P X state_size a_size fc_units =
     (case fc_units of
        PyList us \<Rightarrow>
          if \<not> length us > 0 then Inl AssertionError
          else (case nn_Linear (P 0) (PyInt state_size) (hd us) of Inl e \<Rightarrow> Inl e | Inr first \<Rightarrow>
                case hidden_layers P 1 us of Inl e \<Rightarrow> Inl e | Inr mids \<Rightarrow>
                case nn_Linear (P (length us)) (last us) (PyInt 32) of Inl e \<Rightarrow> Inl e | Inr v1 \<Rightarrow>
                case nn_Linear (P (length us + 1)) (PyInt 32) (PyInt 1) of Inl e \<Rightarrow> Inl e | Inr v2 \<Rightarrow>
                case nn_Linear (P (length us + 2)) (last us) (PyInt 32) of Inl e \<Rightarrow> Inl e | Inr a1 \<Rightarrow>
                case nn_Linear (P (length us + 3)) (PyInt 32) (PyInt a_size) of
                  Inl e \<Rightarrow> Inl e
                | Inr a2 \<Rightarrow>
                    Inr \<lparr>fc_layers_d = first # mids,
                         value_layer1 = v1\<lparr>weight := xavier_normal (X 0) (weight v1)\<rparr>,
                         value_layer2 = v2,
                         action_layer1 = a1\<lparr>weight := xavier_normal (X 1) (weight a1)\<rparr>,
                         action_layer2 = a2\<rparr>)
      | _ \<Rightarrow> Inl AssertionError)"

definition DuelingQNetwork_init ::
  "(int \<Rightarrow> nat \<Rightarrow> layer_values) \<Rightarrow> (int \<Rightarrow> nat \<Rightarrow> nat \<Rightarrow> nat \<Rightarrow> real) \<Rightarrow> int \<Rightarrow> int \<Rightarrow> int
     \<Rightarrow> py_value \<Rightarrow> py_error + dueling_q_network" where
  "DuelingQNetwork_init W X state_size a_size sd fc_units =
     DuelingQNetwork_init_fc_layers (W sd) (X sd) state_size a_size fc_units"

text \<open>
  \<^verbatim>\<open>torch.mean(a, dim=1)\<close>: the mean of each row of a batch. A tensor of one dimension has no
  dimension 1: \<^verbatim>\<open>IndexError\<close>. (The mean of a row without entries is not a number in
  torch; here it is \<open>0 / 0 = 0\<close>, and no entry of a result depends on it.)
\<close>

definition mean_row :: "real list \<Rightarrow> real" where
  "mean_row r = sum_list r / real (length r)"

fun mean_dim1 :: "tensor \<Rightarrow> py_error + real list" where
  "mean_dim1 (T1 x) = Inl IndexError"
| "mean_dim1 (T2 xs) = Inr (map mean_row xs)"

text \<open>\<^verbatim>\<open>unsqueeze(1)\<close> of a tensor of one dimension: a column.\<close>

definition unsqueeze1 :: "real list \<Rightarrow> tensor" where
  "unsqueeze1 ms = T2 (map (\<lambda>m. [m]) ms)"

text \<open>
  Elementwise operations broadcast: along a dimension the two sizes are equal, or one of
  them is 1 and that operand is repeated; anything else is a \<^verbatim>\<open>RuntimeError\<close>.
\<close>

fun sequence :: "('e + 'a) list \<Rightarrow> 'e + 'a list" where
  "sequence [] = Inr []"
| "sequence (Inl e # rs) = Inl e"
| "sequence (Inr x # rs) = (case sequence rs of Inl e \<Rightarrow> Inl e | Inr xs \<Rightarrow> Inr (x # xs))"

definition broadcast ::
  "('a \<Rightarrow> 'b \<Rightarrow> py_error + 'c) \<Rightarrow> 'a list \<Rightarrow> 'b list \<Rightarrow> py_error + 'c list" where
  "broadcast f xs ys =
     (if length xs = length ys then sequence (map (\<lambda>(x, y). f x y) (zip xs ys))
      else if length xs = 1 then sequence (map (f (hd xs)) ys)
      else if length ys = 1 then sequence (map (\<lambda>x. f x (hd ys)) xs)
      else Inl RuntimeError)"

definition rows_of :: "tensor \<Rightarrow> real list list" where
  "rows_of t = (case t of T1 x \<Rightarrow> [x] | T2 xs \<Rightarrow> xs)"

definition tensor_op :: "(real \<Rightarrow> real \<Rightarrow> real) \<Rightarrow> tensor \<Rightarrow> tensor \<Rightarrow> py_error + tensor" where
  "tensor_op f s t =
     (case (s, t) of
        (T1 x, T1 y) \<Rightarrow> map_sum id T1 (broadcast (\<lambda>p q. Inr (f p q)) x y)
      | _ \<Rightarrow> map_sum id T2 (broadcast (broadcast (\<lambda>p q. Inr (f p q))) (rows_of s) (rows_of t)))"

text \<open>
  The local variables \<open>v\<close> and \<open>a\<close> of \<^verbatim>\<open>DuelingQNetwork.forward\<close> before its last line.
\<close>

definition dueling_heads :: "dueling_q_network \<Rightarrow> tensor \<Rightarrow> py_error + tensor \<times> tensor" where
  "dueling_heads net st =
     (case relu_chain (fc_layers_d net) st of Inl e \<Rightarrow> Inl e | Inr x \<Rightarrow>
      case linear_apply (value_layer1 net) x of Inl e \<Rightarrow> Inl e | Inr v1 \<Rightarrow>
      case linear_apply (value_layer2 net) (relu v1) of Inl e \<Rightarrow> Inl e | Inr v \<Rightarrow>
      case linear_apply (action_layer1 net) x of Inl e \<Rightarrow> Inl e | Inr a1 \<Rightarrow>
      case linear_apply (action_layer2 net) (relu a1) of Inl e \<Rightarrow> Inl e | Inr a \<Rightarrow> Inr (v, a))"

text \<open>
  \<^verbatim>\<open>DuelingQNetwork.forward\<close>: the last line is
  \<^verbatim>\<open>v + (a - torch.mean(a, dim=1).unsqueeze(1))\<close>.
\<close>

definition forward_dueling :: "dueling_q_network \<Rightarrow> tensor \<Rightarrow> py_error + tensor" where
  "forward_dueling net st =
     (case dueling_heads net st of Inl e \<Rightarrow> Inl e | Inr (v, a) \<Rightarrow>
      case mean_dim1 a of Inl e \<Rightarrow> Inl e | Inr m \<Rightarrow>
      case tensor_op (\<lambda>p q. p - q) a (unsqueeze1 m) of Inl e \<Rightarrow> Inl e | Inr c \<Rightarrow>
      tensor_op (\<lambda>p q. p + q) v c)"

subsection \<open>Notions for stating the properties\<close>

text \<open>
  \<open>chain_shape n ls m\<close>: the layers \<open>ls\<close> fit together, from width \<open>n\<close> to width \<open>m\<close>, and
  each holds as many weight rows and bias entries as it has outputs.
\<close>

fun chain_shape :: "nat \<Rightarrow> linear list \<Rightarrow> nat \<Rightarrow> bool" where
  "chain_shape n [] m = (n = m)"
| "chain_shape n (l # ls) m =
     (in_features l = n \<and> length (weight l) = out_features l \<and> length (bias l) = out_features l
      \<and> chain_shape (out_features l) ls m)"

text \<open>The width that an entry of \<open>fc_units\<close> stands for, and whether \<^verbatim>\<open>nn.Linear\<close> accepts it.\<close>

fun width_of :: "py_value \<Rightarrow> nat" where
  "width_of (PyInt n) = nat n"
| "width_of v = 0"

fun is_width :: "py_value \<Rightarrow> bool" where
  "is_width (PyInt n) = (0 \<le> n)"
| "is_width v = False"


text \<open>\<open>layer_shape l n m\<close>: the layer \<open>l\<close> maps width \<open>n\<close> to width \<open>m\<close>.\<close>

definition layer_shape :: "linear \<Rightarrow> nat \<Rightarrow> nat \<Rightarrow> bool" where
  "layer_shape l n m \<longleftrightarrow>
     in_features l = n \<and> out_features l = m \<and> length (weight l) = m \<and> length (bias l) = m"

text \<open>
  The dueling identity for one sample, in the words of the specification:
  \<open>Q = V + (A - mean(A))\<close>, with the mean over the actions.
\<close>

definition dueling_identity :: "real \<Rightarrow> real list \<Rightarrow> real list" where
  "dueling_identity v a = map (\<lambda>p. v + (p - mean_row a)) a"

text \<open>
  Parameter values for running the networks on concrete inputs: every weight matrix has ones
  on its diagonal and zeros elsewhere, and the bias of the \<open>k\<close>-th layer made is \<open>1 - k\<close>.
\<close>

definition demo_values :: "int \<Rightarrow> nat \<Rightarrow> layer_values" where
  "demo_values sd k = \<lparr>w_val = (\<lambda>i j. if i = j then 1 else 0), b_val = (\<lambda>i. 1 - real k)\<rparr>"

definition demo_xavier :: "int \<Rightarrow> nat \<Rightarrow> nat \<Rightarrow> nat \<Rightarrow> real" where
  "demo_xavier sd h i j = (if i = j then 1 else 0)"


definition demo_dnet :: dueling_q_network where
  "demo_dnet =
     projr (DuelingQNetwork_init demo_values demo_xavier 2 2 0 (PyList [PyInt 2, PyInt 2]))"

section \<open>Properties of the replay buffer\<close>

lemma add_exp_memory: "memory (add_exp b e) = deque_append (maxlen b) (memory b) e"
  by (cases e) (simp add: add_exp_def add_def)

lemma add_exp_maxlen: "maxlen (add_exp b e) = maxlen b"
  by (simp add: add_exp_def add_def)

lemma add_exp_batch_size: "batch_size (add_exp b e) = batch_size b"
  by (simp add: add_exp_def add_def)

lemma add_all_maxlen: "maxlen (add_all b es) = maxlen b"
  unfolding add_all_def by (induction es arbitrary: b) (simp_all add: add_exp_maxlen)

lemma add_all_batch_size: "batch_size (add_all b es) = batch_size b"
  unfolding add_all_def by (induction es arbitrary: b) (simp_all add: add_exp_batch_size)

lemma add_all_snoc: "add_all b (es @ [e]) = add_exp (add_all b es) e"
  by (simp add: add_all_def)

lemma deque_append_drop:
  "deque_append ml (drop (length es - ml) es) e = drop (length (es @ [e]) - ml) (es @ [e])"
proof (cases "length es < ml")
  case True
  then show ?thesis by (simp add: deque_append_def)
next
  case False
  let ?n = "length es - ml"
  have n: "?n \<le> length es" by simp
  have "length (drop ?n es @ [e]) = Suc ml" using False by simp
  then have 1: "deque_append ml (drop ?n es) e = tl (drop ?n es @ [e])"
    by (simp add: deque_append_def)
  have 2: "drop ?n es @ [e] = drop ?n (es @ [e])"
    using n by simp
  have 3: "tl (drop ?n (es @ [e])) = drop (Suc ?n) (es @ [e])"
    by (simp only: drop_Suc tl_drop)
  have 4: "Suc ?n = length (es @ [e]) - ml"
    using False by simp
  show ?thesis by (simp only: 1 2 3 4)
qed

lemma add_all_memory:
  "memory b = [] \<Longrightarrow> memory (add_all b es) = drop (length es - maxlen b) es"
proof (induction es rule: rev_induct)
  case Nil
  then show ?case by (simp add: add_all_def)
next
  case (snoc e es)
  then have "memory (add_all b (es @ [e])) = deque_append (maxlen b) (drop (length es - maxlen b) es) e"
    by (simp add: add_all_snoc add_exp_memory add_all_maxlen)
  then show ?case by (simp only: deque_append_drop)
qed

lemma init_fields:
  assumes "ReplayBuffer_init R a bs k sd dev g = (Inr b0, g0)"
  shows "memory b0 = []" and "maxlen b0 = nat bs" and "0 \<le> bs" and "batch_size b0 = k"
  using assms by (auto simp: ReplayBuffer_init_def split: if_splits)

subsection \<open>Capacity and eviction\<close>

text \<open>
  C1. A buffer that the constructor returned, after any sequence of \<open>add\<close> calls, holds the
  last \<open>buffer_size\<close> of the inserted experiences in insertion order, so its length never
  exceeds \<open>buffer_size\<close>. At capacity an \<open>add\<close> drops exactly the oldest entry and keeps the
  length. After \<open>buffer_size + j\<close> insertions with \<open>j > 0\<close> the length is \<open>buffer_size\<close> and
  exactly the oldest \<open>j\<close> are gone.
\<close>

theorem C1_fifo_eviction:
  assumes "ReplayBuffer_init R a bs k sd dev g = (Inr b0, g0)"
  shows "len (add_all b0 es) \<le> bs
       \<and> memory (add_all b0 es) = drop (length es - nat bs) es
       \<and> (len (add_all b0 es) = bs \<longrightarrow>
            memory (add_exp (add_all b0 es) e) = tl (memory (add_all b0 es) @ [e])
            \<and> len (add_exp (add_all b0 es) e) = bs)
       \<and> (\<forall>j>0. length es = nat bs + j \<longrightarrow>
            len (add_all b0 es) = bs \<and> memory (add_all b0 es) = drop j es)"
proof -
  note f = init_fields [OF assms]
  have m: "memory (add_all b0 es) = drop (length es - nat bs) es"
    using add_all_memory [of b0 es] f by simp
  have l: "len (add_all b0 es) \<le> bs"
    using f(3) by (simp add: len_def m)
  have s: "len (add_all b0 es) = bs \<longrightarrow>
            memory (add_exp (add_all b0 es) e) = tl (memory (add_all b0 es) @ [e])
            \<and> len (add_exp (add_all b0 es) e) = bs"
    using f(3) by (auto simp: len_def add_exp_memory add_all_maxlen f(2) deque_append_def)
  have k: "\<forall>j>0. length es = nat bs + j \<longrightarrow>
            len (add_all b0 es) = bs \<and> memory (add_all b0 es) = drop j es"
    using f(3) by (simp add: len_def m)
  from m l s k show ?thesis by blast
qed

theorem C1_fifo_eviction_witness:
  "ReplayBuffer_init counter_random 4 2 1 0 ''cpu'' 0
     = (Inr \<lparr>action_size = 4, memory = [], maxlen = 2, batch_size = 1, device = ''cpu'',
             seed = None\<rparr>, 0)
   \<and> memory (add_all \<lparr>action_size = 4, memory = [], maxlen = 2, batch_size = 1,
                      device = ''cpu'', seed = None\<rparr> [tagged 0, tagged 1, tagged 2])
       = [tagged 1, tagged 2]"
proof -
  have i: "ReplayBuffer_init counter_random 4 2 1 0 ''cpu'' 0
     = (Inr \<lparr>action_size = 4, memory = [], maxlen = 2, batch_size = 1, device = ''cpu'',
             seed = None\<rparr>, 0)"
    by (simp add: ReplayBuffer_init_def counter_random_def)
  show ?thesis using i C1_fifo_eviction [OF i, of "[tagged 0, tagged 1, tagged 2]"] by simp
qed

subsection \<open>Readiness\<close>

text \<open>
  C6. \<open>is_ready_to_sample\<close> is true exactly when the length strictly exceeds \<open>batch_size\<close>.
  With \<open>batch_size = 64\<close> and room for 65 entries it is false after 64 insertions and true
  after 65.
\<close>

theorem C6_is_ready_strict:
  assumes "ReplayBuffer_init R a bs 64 sd dev g = (Inr b0, g0)" and "65 \<le> bs"
  shows "(is_ready_to_sample b \<longleftrightarrow> batch_size b < len b)
       \<and> (length es = 64 \<longrightarrow> \<not> is_ready_to_sample (add_all b0 es))
       \<and> (length es = 65 \<longrightarrow> is_ready_to_sample (add_all b0 es))"
proof -
  note f = init_fields [OF assms(1)]
  have m: "memory (add_all b0 es) = drop (length es - nat bs) es"
    using add_all_memory [of b0 es] f by simp
  show ?thesis
    using assms(2) by (auto simp: is_ready_to_sample_def len_def m add_all_batch_size f(4))
qed

theorem C6_is_ready_strict_witness:
  "ReplayBuffer_init counter_random 4 100000 64 0 ''cpu'' 0
     = (Inr \<lparr>action_size = 4, memory = [], maxlen = 100000, batch_size = 64, device = ''cpu'',
             seed = None\<rparr>, 0)
   \<and> \<not> is_ready_to_sample (add_all \<lparr>action_size = 4, memory = [], maxlen = 100000,
          batch_size = 64, device = ''cpu'', seed = None\<rparr> (map tagged [0..<64]))
   \<and> is_ready_to_sample (add_all \<lparr>action_size = 4, memory = [], maxlen = 100000,
          batch_size = 64, device = ''cpu'', seed = None\<rparr> (map tagged [0..<65]))"
proof -
  have i: "ReplayBuffer_init counter_random 4 100000 64 0 ''cpu'' 0
     = (Inr \<lparr>action_size = 4, memory = [], maxlen = 100000, batch_size = 64, device = ''cpu'',
             seed = None\<rparr>, 0)"
    by (simp add: ReplayBuffer_init_def counter_random_def)
  have b: "(65::int) \<le> 100000" by simp
  let ?B = "\<lparr>action_size = 4, memory = [], maxlen = 100000, batch_size = 64, device = ''cpu'',
             seed = None\<rparr>"
  have n: "\<not> is_ready_to_sample (add_all ?B (map tagged [0..<64]))"
    using C6_is_ready_strict [OF i b, where es = "map tagged [0..<64]" and b = ?B] by simp
  have y: "is_ready_to_sample (add_all ?B (map tagged [0..<65]))"
    using C6_is_ready_strict [OF i b, where es = "map tagged [0..<65]" and b = ?B] by simp
  from i n y show ?thesis by blast
qed

subsection \<open>Sampling\<close>




lemma sample_buffer_unchanged: "fst (snd (sample R (b, g))) = b"
  by (cases "random_sample R (memory b) (batch_size b) g")
     (simp add: sample_def split: sum.splits)
















text \<open>
  C8. \<open>sample\<close> returns the buffer it was given: the stored experiences, their order and the
  length are the same after the call, and a following \<open>add\<close> behaves as it would have before.
\<close>

theorem C8_sample_keeps_buffer:
  assumes "sample R (b, g) = (res, b', g')"
  shows "b' = b \<and> memory b' = memory b \<and> len b' = len b \<and> add_exp b' e = add_exp b e"
  using assms sample_buffer_unchanged [of R b g] by simp

theorem C8_sample_keeps_buffer_witness:
  "sample counter_random (demo_buffer 5 2 6, 0)
     = (Inr \<lparr>states = [[1], [2]], actions = [[1], [2]], rewards = [[0], [0]],
              next_states = [[2], [3]], dones = [[0], [0]]\<rparr>, demo_buffer 5 2 6, 2)
   \<and> memory (demo_buffer 5 2 6) = map tagged [1, 2, 3, 4, 5]
   \<and> len (demo_buffer 5 2 6) = 5"
proof -
  have s: "sample counter_random (demo_buffer 5 2 6, 0)
     = (Inr \<lparr>states = [[1], [2]], actions = [[1], [2]], rewards = [[0], [0]],
              next_states = [[2], [3]], dones = [[0], [0]]\<rparr>, demo_buffer 5 2 6, 2)"
    by code_simp
  have m: "memory (demo_buffer 5 2 6) = map tagged [1, 2, 3, 4, 5]" by code_simp
  have l: "len (demo_buffer 5 2 6) = 5" by code_simp
  show ?thesis using C8_sample_keeps_buffer [OF s] s m l by simp
qed




section \<open>Properties of the networks\<close>

subsection \<open>Shapes\<close>

lemma nn_Linear_Inr:
  "nn_Linear v a b = Inr l \<Longrightarrow>
     is_width a \<and> is_width b \<and> in_features l = width_of a \<and> out_features l = width_of b
     \<and> length (weight l) = width_of b \<and> length (bias l) = width_of b"
  by (cases a; cases b) (auto simp: nn_Linear_def split: if_splits)


lemma hidden_layers_Inr:
  "hidden_layers P k (u # us) = Inr ls \<Longrightarrow>
     chain_shape (width_of u) ls (width_of (last (u # us))) \<and> length ls = length us
     \<and> (us \<noteq> [] \<longrightarrow> (\<forall>w \<in> set (u # us). is_width w))
     \<and> map out_features ls = map width_of us"
proof (induction us arbitrary: k u ls)
  case Nil
  then show ?case by simp
next
  case (Cons v vs)
  from Cons.prems obtain l ls' where l: "nn_Linear (P k) u v = Inr l"
    and r: "hidden_layers P (Suc k) (v # vs) = Inr ls'" and e: "ls = l # ls'"
    by (auto split: sum.splits)
  note s = nn_Linear_Inr [OF l]
  note ih = Cons.IH [OF r]
  show ?case using s ih e by auto
qed


lemma length_linear_row: "length (linear_row l x) = min (length (weight l)) (length (bias l))"
  by (simp add: linear_row_def)

lemma relu_chain_T1:
  "chain_shape n ls m \<Longrightarrow> length x = n \<Longrightarrow>
     \<exists>y. relu_chain ls (T1 x) = Inr (T1 y) \<and> length y = m \<and> (ls \<noteq> [] \<longrightarrow> (\<forall>v \<in> set y. 0 \<le> v))"
proof (induction ls arbitrary: n x)
  case Nil
  then show ?case by simp
next
  case (Cons l ls)
  let ?y = "map (max 0) (linear_row l x)"
  have a: "linear_apply l (T1 x) = Inr (T1 (linear_row l x))" using Cons.prems by simp
  have ly: "length ?y = out_features l" using Cons.prems by (simp add: length_linear_row)
  have c: "chain_shape (out_features l) ls m" using Cons.prems by simp
  obtain z where z: "relu_chain ls (T1 ?y) = Inr (T1 z)" "length z = m"
     "ls \<noteq> [] \<longrightarrow> (\<forall>v \<in> set z. 0 \<le> v)"
    using Cons.IH [OF c ly] by blast
  have nn: "\<forall>v \<in> set ?y. 0 \<le> v" by auto
  have "ls = [] \<Longrightarrow> z = ?y" using z(1) by simp
  then have "\<forall>v \<in> set z. 0 \<le> v" using z(3) nn by (cases "ls = []") auto
  then show ?case using a z by simp
qed

lemma relu_chain_T2:
  "chain_shape n ls m \<Longrightarrow> \<forall>x \<in> set xs. length x = n \<Longrightarrow>
     \<exists>ys. relu_chain ls (T2 xs) = Inr (T2 ys) \<and> length ys = length xs
          \<and> (\<forall>y \<in> set ys. length y = m) \<and> (ls \<noteq> [] \<longrightarrow> (\<forall>y \<in> set ys. \<forall>v \<in> set y. 0 \<le> v))"
proof (induction ls arbitrary: n xs)
  case Nil
  then show ?case by simp
next
  case (Cons l ls)
  let ?ys = "map (map (max 0)) (map (linear_row l) xs)"
  have a: "linear_apply l (T2 xs) = Inr (T2 (map (linear_row l) xs))" using Cons.prems by simp
  have ly: "\<forall>y \<in> set ?ys. length y = out_features l"
    using Cons.prems by (simp add: length_linear_row)
  have c: "chain_shape (out_features l) ls m" using Cons.prems by simp
  obtain zs where z: "relu_chain ls (T2 ?ys) = Inr (T2 zs)" "length zs = length ?ys"
     "\<forall>y \<in> set zs. length y = m" "ls \<noteq> [] \<longrightarrow> (\<forall>y \<in> set zs. \<forall>v \<in> set y. 0 \<le> v)"
    using Cons.IH [OF c ly] by blast
  have nn: "\<forall>y \<in> set ?ys. \<forall>v \<in> set y. 0 \<le> v" by auto
  have "ls = [] \<Longrightarrow> zs = ?ys" using z(1) by simp
  then have "\<forall>y \<in> set zs. \<forall>v \<in> set y. 0 \<le> v" using z(4) nn by (cases "ls = []") auto
  then show ?case using a z by simp
qed

lemma relu_chain_T1_dim: "relu_chain ls (T1 x) = Inr y \<Longrightarrow> \<exists>z. y = T1 z"
  by (induction ls arbitrary: x) (auto split: sum.splits if_splits)

lemma nn_Linear_shape:
  "nn_Linear v a b = Inr l \<Longrightarrow> layer_shape l (width_of a) (width_of b)"
  using nn_Linear_Inr [of v a b l] by (simp add: layer_shape_def)

lemma chain_shape_Cons_layer:
  "layer_shape l n k \<Longrightarrow> chain_shape k ls m \<Longrightarrow> chain_shape n (l # ls) m"
  by (simp add: layer_shape_def)

lemma trunk_shape:
  assumes f: "nn_Linear v (PyInt ss) (hd us) = Inr first" and h: "hidden_layers P k us = Inr mids"
    and ne: "us \<noteq> []"
  shows "chain_shape (nat ss) (first # mids) (width_of (last us))"
    and "map out_features (first # mids) = map width_of us"
    and "\<forall>u \<in> set us. is_width u" and "0 \<le> ss"
proof -
  obtain u us' where us: "us = u # us'" using ne by (cases us) auto
  note s = nn_Linear_Inr [OF f]
  note hl = hidden_layers_Inr [OF h [unfolded us]]
  have fs: "layer_shape first (nat ss) (width_of u)"
    using nn_Linear_shape [OF f] us by simp
  have "chain_shape (width_of u) mids (width_of (last us))"
    using hl us by simp
  then show "chain_shape (nat ss) (first # mids) (width_of (last us))"
    by (rule chain_shape_Cons_layer [OF fs])
  show "map out_features (first # mids) = map width_of us"
    using s hl us by simp
  show "\<forall>u \<in> set us. is_width u"
    using s hl us by (cases "us' = []") auto
  show "0 \<le> ss" using s by simp
qed

lemma QNetwork_init_Inr:
  assumes "QNetwork_init W ss a sd fc = Inr net"
  shows "\<exists>us first mids final. fc = PyList us \<and> us \<noteq> []
           \<and> fc_layers net = first # mids @ [final]
           \<and> chain_shape (nat ss) (first # mids) (width_of (last us))
           \<and> layer_shape final (width_of (last us)) (nat a)
           \<and> map out_features (first # mids) = map width_of us
           \<and> (\<forall>u \<in> set us. is_width u) \<and> 0 \<le> ss \<and> 0 \<le> a"
proof -
  from assms obtain us where fc: "fc = PyList us"
    by (cases fc) (simp_all add: QNetwork_init_def QNetwork_init_fc_layers_def)
  from assms fc have ne: "us \<noteq> []"
    by (auto simp: QNetwork_init_def QNetwork_init_fc_layers_def split: if_splits)
  from assms fc ne obtain first mids final where
    f: "nn_Linear (W sd 0) (PyInt ss) (hd us) = Inr first"
    and h: "hidden_layers (W sd) 1 us = Inr mids"
    and l: "nn_Linear (W sd (length us)) (last us) (PyInt a) = Inr final"
    and n: "fc_layers net = first # mids @ [final]"
    by (auto simp: QNetwork_init_def QNetwork_init_fc_layers_def split: sum.splits)
  note t = trunk_shape [OF f h ne]
  have ls: "layer_shape final (width_of (last us)) (nat a)"
    using nn_Linear_shape [OF l] by simp
  have a: "0 \<le> a" using nn_Linear_Inr [OF l] by simp
  show ?thesis using fc ne n t ls a by blast
qed

lemma linear_apply_T1_shape:
  "layer_shape l n m \<Longrightarrow> length x = n \<Longrightarrow>
     linear_apply l (T1 x) = Inr (T1 (linear_row l x)) \<and> length (linear_row l x) = m"
  by (simp add: layer_shape_def length_linear_row)

lemma linear_apply_T2_shape:
  "layer_shape l n m \<Longrightarrow> \<forall>x \<in> set xs. length x = n \<Longrightarrow>
     linear_apply l (T2 xs) = Inr (T2 (map (linear_row l) xs))
     \<and> (\<forall>y \<in> set (map (linear_row l) xs). length y = m)"
  by (simp add: layer_shape_def length_linear_row)

lemma forward_shape:
  assumes "QNetwork_init W state_size a_size sd fc_units = Inr net"
  shows "(length x = nat state_size \<longrightarrow>
           (\<exists>h. relu_chain (butlast (fc_layers net)) (T1 x) = Inr (T1 h) \<and> (\<forall>v \<in> set h. 0 \<le> v)
              \<and> forward net (T1 x) = Inr (T1 (linear_row (last (fc_layers net)) h))
              \<and> int (length (linear_row (last (fc_layers net)) h)) = a_size))
       \<and> ((\<forall>x \<in> set xs. length x = nat state_size) \<longrightarrow>
           (\<exists>hs. relu_chain (butlast (fc_layers net)) (T2 xs) = Inr (T2 hs)
              \<and> (\<forall>h \<in> set hs. \<forall>v \<in> set h. 0 \<le> v)
              \<and> forward net (T2 xs) = Inr (T2 (map (linear_row (last (fc_layers net))) hs))
              \<and> length hs = length xs
              \<and> (\<forall>q \<in> set (map (linear_row (last (fc_layers net))) hs). int (length q) = a_size)))"
proof -
  obtain us first mids final where n: "fc_layers net = first # mids @ [final]"
    and c: "chain_shape (nat state_size) (first # mids) (width_of (last us))"
    and l: "layer_shape final (width_of (last us)) (nat a_size)" and a: "0 \<le> a_size"
    using QNetwork_init_Inr [OF assms] by blast
  have b: "butlast (fc_layers net) = first # mids" and la: "last (fc_layers net) = final"
    and ne: "fc_layers net \<noteq> []"
    using n by (simp_all add: butlast_append)
  have one: "\<exists>h. relu_chain (butlast (fc_layers net)) (T1 x) = Inr (T1 h) \<and> (\<forall>v \<in> set h. 0 \<le> v)
              \<and> forward net (T1 x) = Inr (T1 (linear_row (last (fc_layers net)) h))
              \<and> int (length (linear_row (last (fc_layers net)) h)) = a_size"
    if x: "length x = nat state_size"
  proof -
    obtain h where h: "relu_chain (first # mids) (T1 x) = Inr (T1 h)"
      "length h = width_of (last us)" "\<forall>v \<in> set h. 0 \<le> v"
      using relu_chain_T1 [OF c x] by blast
    note f = linear_apply_T1_shape [OF l h(2)]
    have "forward net (T1 x) = Inr (T1 (linear_row final h))"
      using h(1) f ne by (simp add: forward_def b la)
    then show ?thesis using h f a by (auto simp: b la)
  qed
  have two: "\<exists>hs. relu_chain (butlast (fc_layers net)) (T2 xs) = Inr (T2 hs)
              \<and> (\<forall>h \<in> set hs. \<forall>v \<in> set h. 0 \<le> v)
              \<and> forward net (T2 xs) = Inr (T2 (map (linear_row (last (fc_layers net))) hs))
              \<and> length hs = length xs
              \<and> (\<forall>q \<in> set (map (linear_row (last (fc_layers net))) hs). int (length q) = a_size)"
    if xs: "\<forall>x \<in> set xs. length x = nat state_size"
  proof -
    obtain hs where h: "relu_chain (first # mids) (T2 xs) = Inr (T2 hs)"
      "length hs = length xs" "\<forall>y \<in> set hs. length y = width_of (last us)"
      "\<forall>y \<in> set hs. \<forall>v \<in> set y. 0 \<le> v"
      using relu_chain_T2 [OF c xs] by blast
    note f = linear_apply_T2_shape [OF l h(3)]
    have "forward net (T2 xs) = Inr (T2 (map (linear_row final) hs))"
      using h(1) f ne by (simp add: forward_def b la)
    moreover have "\<forall>q \<in> set (map (linear_row final) hs). int (length q) = a_size"
      using f a by simp
    ultimately show ?thesis using h by (auto simp: b la)
  qed
  show ?thesis using one two by blast
qed

lemma layer_shape_xavier:
  "layer_shape l n m \<Longrightarrow> layer_shape (l\<lparr>weight := xavier_normal f (weight l)\<rparr>) n m"
  by (simp add: layer_shape_def xavier_normal_def)

lemma DuelingQNetwork_init_Inr:
  assumes "DuelingQNetwork_init W X ss a sd fc = Inr net"
  shows "\<exists>us. fc = PyList us \<and> us \<noteq> []
           \<and> chain_shape (nat ss) (fc_layers_d net) (width_of (last us))
           \<and> layer_shape (value_layer1 net) (width_of (last us)) 32
           \<and> layer_shape (value_layer2 net) 32 1
           \<and> layer_shape (action_layer1 net) (width_of (last us)) 32
           \<and> layer_shape (action_layer2 net) 32 (nat a)
           \<and> map out_features (fc_layers_d net) = map width_of us
           \<and> (\<forall>u \<in> set us. is_width u) \<and> 0 \<le> ss \<and> 0 \<le> a"
proof -
  from assms obtain us where fc: "fc = PyList us"
    by (cases fc) (simp_all add: DuelingQNetwork_init_def DuelingQNetwork_init_fc_layers_def)
  from assms fc have ne: "us \<noteq> []"
    by (auto simp: DuelingQNetwork_init_def DuelingQNetwork_init_fc_layers_def split: if_splits)
  from assms fc ne obtain first mids v1 v2 a1 a2 where
    f: "nn_Linear (W sd 0) (PyInt ss) (hd us) = Inr first"
    and h: "hidden_layers (W sd) 1 us = Inr mids"
    and v1: "nn_Linear (W sd (length us)) (last us) (PyInt 32) = Inr v1"
    and v2: "nn_Linear (W sd (length us + 1)) (PyInt 32) (PyInt 1) = Inr v2"
    and a1: "nn_Linear (W sd (length us + 2)) (last us) (PyInt 32) = Inr a1"
    and a2: "nn_Linear (W sd (length us + 3)) (PyInt 32) (PyInt a) = Inr a2"
    and n: "net = \<lparr>fc_layers_d = first # mids,
                  value_layer1 = v1\<lparr>weight := xavier_normal (X sd 0) (weight v1)\<rparr>,
                  value_layer2 = v2,
                  action_layer1 = a1\<lparr>weight := xavier_normal (X sd 1) (weight a1)\<rparr>,
                  action_layer2 = a2\<rparr>"
    by (auto simp: DuelingQNetwork_init_def DuelingQNetwork_init_fc_layers_def split: sum.splits)
  note t = trunk_shape [OF f h ne]
  have s1: "layer_shape (value_layer1 net) (width_of (last us)) 32"
    using layer_shape_xavier [OF nn_Linear_shape [OF v1]] n by simp
  have s2: "layer_shape (value_layer2 net) 32 1"
    using nn_Linear_shape [OF v2] n by simp
  have s3: "layer_shape (action_layer1 net) (width_of (last us)) 32"
    using layer_shape_xavier [OF nn_Linear_shape [OF a1]] n by simp
  have s4: "layer_shape (action_layer2 net) 32 (nat a)"
    using nn_Linear_shape [OF a2] n by simp
  have a: "0 \<le> a" using nn_Linear_Inr [OF a2] by simp
  have tr: "fc_layers_d net = first # mids" using n by simp
  show ?thesis using fc ne t s1 s2 s3 s4 a unfolding tr by blast
qed

lemma linear_apply_T1_dim: "linear_apply l (T1 x) = Inr y \<Longrightarrow> \<exists>z. y = T1 z"
  by (auto split: if_splits)

lemma dueling_heads_T1_dim:
  assumes "dueling_heads d (T1 y) = Inr (v, a)"
  shows "\<exists>z. a = T1 z"
proof -
  from assms obtain x a1 where x: "relu_chain (fc_layers_d d) (T1 y) = Inr x"
    and a1: "linear_apply (action_layer1 d) x = Inr a1"
    and a: "linear_apply (action_layer2 d) (relu a1) = Inr a"
    by (auto simp: dueling_heads_def split: sum.splits)
  obtain x' where "x = T1 x'" using relu_chain_T1_dim [OF x] by blast
  then obtain a1' where "a1 = T1 a1'" using a1 linear_apply_T1_dim by blast
  then show ?thesis using a by (auto split: if_splits)
qed

lemma forward_dueling_T1_fails: "\<exists>e. forward_dueling d (T1 y) = Inl e"
proof (cases "dueling_heads d (T1 y)")
  case (Inl e)
  then show ?thesis by (simp add: forward_dueling_def)
next
  case (Inr va)
  obtain v a where va: "va = (v, a)" by (cases va)
  obtain z where "a = T1 z" using dueling_heads_T1_dim Inr va by blast
  then show ?thesis using Inr va by (simp add: forward_dueling_def)
qed

lemma dueling_heads_T1:
  assumes "DuelingQNetwork_init W X ss a sd fc = Inr net" and "length x = nat ss"
  shows "\<exists>v q. dueling_heads net (T1 x) = Inr (T1 v, T1 q)"
proof -
  obtain us where c: "chain_shape (nat ss) (fc_layers_d net) (width_of (last us))"
    and s1: "layer_shape (value_layer1 net) (width_of (last us)) 32"
    and s2: "layer_shape (value_layer2 net) 32 1"
    and s3: "layer_shape (action_layer1 net) (width_of (last us)) 32"
    and s4: "layer_shape (action_layer2 net) 32 (nat a)"
    using DuelingQNetwork_init_Inr [OF assms(1)] by blast
  obtain h where h: "relu_chain (fc_layers_d net) (T1 x) = Inr (T1 h)"
    "length h = width_of (last us)"
    using relu_chain_T1 [OF c assms(2)] by blast
  note v1 = linear_apply_T1_shape [OF s1 h(2)]
  have "length (map (max 0) (linear_row (value_layer1 net) h)) = 32" using v1 by simp
  note v2 = linear_apply_T1_shape [OF s2 this]
  note a1 = linear_apply_T1_shape [OF s3 h(2)]
  have "length (map (max 0) (linear_row (action_layer1 net) h)) = 32" using a1 by simp
  note a2 = linear_apply_T1_shape [OF s4 this]
  show ?thesis using h(1) v1 v2 a1 a2 by (simp add: dueling_heads_def)
qed

lemma dueling_heads_T2:
  assumes "DuelingQNetwork_init W X ss a sd fc = Inr net" and "\<forall>x \<in> set xs. length x = nat ss"
  shows "\<exists>vs qs. dueling_heads net (T2 xs) = Inr (T2 vs, T2 qs)
           \<and> length vs = length xs \<and> length qs = length xs
           \<and> (\<forall>v \<in> set vs. length v = 1) \<and> (\<forall>q \<in> set qs. length q = nat a)"
proof -
  obtain us where c: "chain_shape (nat ss) (fc_layers_d net) (width_of (last us))"
    and s1: "layer_shape (value_layer1 net) (width_of (last us)) 32"
    and s2: "layer_shape (value_layer2 net) 32 1"
    and s3: "layer_shape (action_layer1 net) (width_of (last us)) 32"
    and s4: "layer_shape (action_layer2 net) 32 (nat a)"
    using DuelingQNetwork_init_Inr [OF assms(1)] by blast
  obtain hs where h: "relu_chain (fc_layers_d net) (T2 xs) = Inr (T2 hs)"
    "length hs = length xs" "\<forall>y \<in> set hs. length y = width_of (last us)"
    using relu_chain_T2 [OF c assms(2)] by blast
  let ?v1 = "map (linear_row (value_layer1 net)) hs"
  let ?a1 = "map (linear_row (action_layer1 net)) hs"
  note v1 = linear_apply_T2_shape [OF s1 h(3)]
  have "\<forall>y \<in> set (map (map (max 0)) ?v1). length y = 32" using v1 by simp
  note v2 = linear_apply_T2_shape [OF s2 this]
  note a1 = linear_apply_T2_shape [OF s3 h(3)]
  have "\<forall>y \<in> set (map (map (max 0)) ?a1). length y = 32" using a1 by simp
  note a2 = linear_apply_T2_shape [OF s4 this]
  have "dueling_heads net (T2 xs) =
      Inr (T2 (map (linear_row (value_layer2 net)) (map (map (max 0)) ?v1)),
           T2 (map (linear_row (action_layer2 net)) (map (map (max 0)) ?a1)))"
    using h(1) v1 v2 a1 a2 by (simp add: dueling_heads_def)
  then show ?thesis using v2 a2 h(2) by auto
qed

lemma sequence_Inr: "sequence (map (\<lambda>x. Inr (g x)) xs) = Inr (map g xs)"
  by (induction xs) simp_all

lemma broadcast_column:
  "broadcast (\<lambda>p q. Inr (f p q)) a [m] = Inr (map (\<lambda>p. f p m) a)"
proof (cases "length a = 1")
  case True
  then obtain p where "a = [p]" by (cases a) auto
  then show ?thesis by (simp add: broadcast_def)
next
  case False
  then show ?thesis by (simp add: broadcast_def sequence_Inr)
qed

lemma broadcast_scalar:
  "broadcast (\<lambda>p q. Inr (f p q)) [v] c = Inr (map (f v) c)"
proof (cases "length c = 1")
  case True
  then obtain p where "c = [p]" by (cases c) auto
  then show ?thesis by (simp add: broadcast_def)
next
  case False
  then have "length [v] \<noteq> length c" by simp
  then show ?thesis by (simp add: broadcast_def sequence_Inr)
qed

lemma broadcast_rows:
  assumes "length xs = length ys" and "\<And>x y. (x, y) \<in> set (zip xs ys) \<Longrightarrow> f x y = Inr (g x y)"
  shows "broadcast f xs ys = Inr (map (\<lambda>(x, y). g x y) (zip xs ys))"
proof -
  have eq: "map (\<lambda>(x, y). f x y) (zip xs ys) = map (\<lambda>p. Inr ((\<lambda>(x, y). g x y) p)) (zip xs ys)"
    using assms(2) by (intro map_cong) auto
  have "sequence (map (\<lambda>(x, y). f x y) (zip xs ys)) = Inr (map (\<lambda>(x, y). g x y) (zip xs ys))"
    unfolding eq by (rule sequence_Inr)
  then show ?thesis unfolding broadcast_def using assms(1) by (simp only: if_True simp_thms)
qed

lemma center_rows:
  "tensor_op (\<lambda>p q. p - q) (T2 qs) (unsqueeze1 (map mean_row qs))
     = Inr (T2 (map (\<lambda>a. map (\<lambda>p. p - mean_row a) a) qs))"
proof -
  let ?ms = "map (\<lambda>m. [m]) (map mean_row qs)"
  have "broadcast (broadcast (\<lambda>p q. Inr (p - q))) qs ?ms
      = Inr (map (\<lambda>(a, m). map (\<lambda>p. p - hd m) a) (zip qs ?ms))"
  proof (rule broadcast_rows)
    show "length qs = length ?ms" by simp
    fix x y assume "(x, y) \<in> set (zip qs ?ms)"
    then have "y \<in> set ?ms" by (rule set_zip_rightD)
    then obtain m where "y = [m]" by auto
    then show "broadcast (\<lambda>p q. Inr (p - q)) x y = Inr (map (\<lambda>p. p - hd y) x)"
      by (simp add: broadcast_column)
  qed
  also have "map (\<lambda>(a, m). map (\<lambda>p. p - hd m) a) (zip qs ?ms)
      = map (\<lambda>a. map (\<lambda>p. p - mean_row a) a) qs"
    by (induction qs) simp_all
  finally show ?thesis by (simp add: tensor_op_def unsqueeze1_def rows_of_def)
qed

lemma add_value_rows:
  assumes "length vals = length cs"
  shows "tensor_op (\<lambda>p q. p + q) (T2 (map (\<lambda>v. [v]) vals)) (T2 cs)
     = Inr (T2 (map (\<lambda>(v, c). map (\<lambda>p. v + p) c) (zip vals cs)))"
proof -
  let ?vs = "map (\<lambda>v. [v]) vals"
  have "broadcast (broadcast (\<lambda>p q. Inr (p + q))) ?vs cs
      = Inr (map (\<lambda>(v, c). map (\<lambda>p. hd v + p) c) (zip ?vs cs))"
  proof (rule broadcast_rows)
    show "length ?vs = length cs" using assms by simp
    fix x y assume "(x, y) \<in> set (zip ?vs cs)"
    then have "x \<in> set ?vs" by (rule set_zip_leftD)
    then obtain v where "x = [v]" by auto
    then show "broadcast (\<lambda>p q. Inr (p + q)) x y = Inr (map (\<lambda>p. hd x + p) y)"
      by (simp add: broadcast_scalar)
  qed
  also have "map (\<lambda>(v, c). map (\<lambda>p. hd v + p) c) (zip ?vs cs)
      = map (\<lambda>(v, c). map (\<lambda>p. v + p) c) (zip vals cs)"
    by (simp add: zip_map1 case_prod_unfold)
  finally show ?thesis by (simp add: tensor_op_def rows_of_def)
qed

lemma sum_list_shift: "sum_list (map (\<lambda>p. p - m) a) = sum_list a - real (length a) * m"
  by (induction a) (simp_all add: algebra_simps)

lemma centering: "a \<noteq> [] \<Longrightarrow> mean_row (map (\<lambda>q. q - v) (dueling_identity v a)) = 0"
proof -
  assume "a \<noteq> []"
  then have l: "real (length a) \<noteq> 0" by simp
  have "map (\<lambda>q. q - v) (dueling_identity v a) = map (\<lambda>p. p - mean_row a) a"
    by (simp add: dueling_identity_def comp_def)
  then have "mean_row (map (\<lambda>q. q - v) (dueling_identity v a))
      = (sum_list a - real (length a) * mean_row a) / real (length a)"
    by (simp add: mean_row_def sum_list_shift)
  also have "real (length a) * mean_row a = sum_list a"
    using l by (simp add: mean_row_def)
  finally show ?thesis by simp
qed






lemma demo_dnet_init:
  "DuelingQNetwork_init demo_values demo_xavier 2 2 0 (PyList [PyInt 2, PyInt 2]) = Inr demo_dnet"
  by code_simp

subsection \<open>The plain network\<close>



subsection \<open>The dueling network\<close>

text \<open>
  C2. For a network that \<open>DuelingQNetwork_init\<close> returned with at least one action, and a batch
  of states of length \<open>state_size\<close>, the value head yields one scalar \<open>V\<close> per sample, the
  advantage head one vector \<open>A\<close> of \<open>action_size\<close> entries per sample, and the output row of a
  sample is \<open>V + (A - mean(A))\<close>; so the mean over the actions of \<open>Q - V\<close> is zero. Arithmetic
  is exact here, so the equality is exact.
\<close>

theorem C2_dueling_identity:
  assumes "DuelingQNetwork_init W X state_size a_size sd fc_units = Inr net"
    and "0 < a_size" and "\<forall>x \<in> set xs. length x = nat state_size"
  shows "\<exists>vals advs. dueling_heads net (T2 xs) = Inr (T2 (map (\<lambda>v. [v]) vals), T2 advs)
           \<and> length vals = length xs \<and> length advs = length xs
           \<and> (\<forall>a \<in> set advs. int (length a) = a_size)
           \<and> forward_dueling net (T2 xs)
               = Inr (T2 (map (\<lambda>(v, a). dueling_identity v a) (zip vals advs)))
           \<and> (\<forall>(v, a) \<in> set (zip vals advs).
                 mean_row (map (\<lambda>q. q - v) (dueling_identity v a)) = 0)"
proof -
  obtain vs advs where h: "dueling_heads net (T2 xs) = Inr (T2 vs, T2 advs)"
    and l: "length vs = length xs" "length advs = length xs"
    and v1: "\<forall>v \<in> set vs. length v = 1" and al: "\<forall>q \<in> set advs. length q = nat a_size"
    using dueling_heads_T2 [OF assms(1) assms(3)] by blast
  let ?vals = "map hd vs"
  have vs: "vs = map (\<lambda>v. [v]) ?vals"
  proof -
    have "\<And>v. v \<in> set vs \<Longrightarrow> [hd v] = v"
    proof -
      fix v assume "v \<in> set vs"
      then have "length v = 1" using v1 by blast
      then show "[hd v] = v" by (cases v) auto
    qed
    then have "map (\<lambda>v. [hd v]) vs = vs" by (simp add: map_idI)
    then show ?thesis by (simp add: comp_def)
  qed
  let ?cs = "map (\<lambda>a. map (\<lambda>p. p - mean_row a) a) advs"
  have lc: "length ?vals = length ?cs" using l by simp
  have m: "mean_dim1 (T2 advs) = Inr (map mean_row advs)" by simp
  have c: "tensor_op (\<lambda>p q. p - q) (T2 advs) (unsqueeze1 (map mean_row advs)) = Inr (T2 ?cs)"
    by (rule center_rows)
  have s: "tensor_op (\<lambda>p q. p + q) (T2 (map (\<lambda>v. [v]) ?vals)) (T2 ?cs)
      = Inr (T2 (map (\<lambda>(v, c). map (\<lambda>p. v + p) c) (zip ?vals ?cs)))"
    by (rule add_value_rows [OF lc])
  have e: "map (\<lambda>(v, c). map (\<lambda>p. v + p) c) (zip ?vals ?cs)
      = map (\<lambda>(v, a). dueling_identity v a) (zip ?vals advs)"
    by (simp add: zip_map2 case_prod_unfold dueling_identity_def comp_def)
  have h': "dueling_heads net (T2 xs) = Inr (T2 (map (\<lambda>v. [v]) ?vals), T2 advs)"
    using h vs by simp
  have f: "forward_dueling net (T2 xs)
      = Inr (T2 (map (\<lambda>(v, a). dueling_identity v a) (zip ?vals advs)))"
    unfolding forward_dueling_def h' using m c s e by simp
  have ne: "\<forall>a \<in> set advs. a \<noteq> []" using al assms(2) by auto
  have z: "\<forall>(v, a) \<in> set (zip ?vals advs). mean_row (map (\<lambda>q. q - v) (dueling_identity v a)) = 0"
    using ne by (auto dest: set_zip_rightD intro: centering)
  have al': "\<forall>a \<in> set advs. int (length a) = a_size" using al assms(2) by simp
  have lv: "length ?vals = length xs" using l by simp
  show ?thesis using h' lv l(2) al' f z by blast
qed

theorem C2_dueling_identity_witness:
  "DuelingQNetwork_init demo_values demo_xavier 2 2 0 (PyList [PyInt 2, PyInt 2]) = Inr demo_dnet
   \<and> dueling_heads demo_dnet (T2 [[5, 7], [1, 0]]) = Inr (T2 [[3], [- 1]], T2 [[- 1, 1], [- 4, - 4]])
   \<and> forward_dueling demo_dnet (T2 [[5, 7], [1, 0]]) = Inr (T2 [[2, 4], [- 1, - 1]])
   \<and> mean_row (map (\<lambda>q. q - 3) [2, 4]) = 0"
proof -
  have a: "(0::int) < 2" by simp
  have x: "\<forall>x \<in> set [[5, 7], [1, 0 :: real]]. length x = nat 2" by simp
  have h: "dueling_heads demo_dnet (T2 [[5, 7], [1, 0]])
      = Inr (T2 (map (\<lambda>v. [v]) [3, - 1]), T2 [[- 1, 1], [- 4, - 4]])" by code_simp
  have i: "map (\<lambda>(v, a). dueling_identity v a) (zip [3, - 1] [[- 1, 1], [- 4, - 4]])
      = [[2, 4], [- 1, - 1]]" by code_simp
  have d: "dueling_identity 3 [- 1, 1] = [2, 4]" by code_simp
  obtain vals advs where
    h': "dueling_heads demo_dnet (T2 [[5, 7], [1, 0]]) = Inr (T2 (map (\<lambda>v. [v]) vals), T2 advs)"
    and f: "forward_dueling demo_dnet (T2 [[5, 7], [1, 0]])
               = Inr (T2 (map (\<lambda>(v, a). dueling_identity v a) (zip vals advs)))"
    and z: "\<forall>(v, a) \<in> set (zip vals advs). mean_row (map (\<lambda>q. q - v) (dueling_identity v a)) = 0"
    using C2_dueling_identity [OF demo_dnet_init a x] by blast
  have "map (\<lambda>v. [v]) vals = map (\<lambda>v. [v]) [3, - 1]" and ad: "advs = [[- 1, 1], [- 4, - 4]]"
    using h h' by simp_all
  then have va: "vals = [3, - 1]" by (auto simp: map_eq_Cons_conv)
  have f': "forward_dueling demo_dnet (T2 [[5, 7], [1, 0]]) = Inr (T2 [[2, 4], [- 1, - 1]])"
    using f i unfolding va ad by simp
  have "mean_row (map (\<lambda>q. q - 3) (dueling_identity 3 [- 1, 1])) = 0"
    using z unfolding va ad by simp
  then have z': "mean_row (map (\<lambda>q. q - 3) [2, 4]) = 0" unfolding d .
  have h2: "dueling_heads demo_dnet (T2 [[5, 7], [1, 0]]) = Inr (T2 [[3], [- 1]], T2 [[- 1, 1], [- 4, - 4]])"
    using h by simp
  show ?thesis using demo_dnet_init h2 f' z' by blast
qed

text \<open>
  C10. On a single state of one dimension the dueling network fails: every dueling network
  does, and one that the constructor returned fails on a state of length \<open>state_size\<close> with
  the \<^verbatim>\<open>IndexError\<close> of \<^verbatim>\<open>torch.mean(a, dim=1)\<close>. The plain network built from the same
  arguments returns a vector of \<open>action_size\<close> values on that state.
\<close>

theorem C10_dueling_needs_batch:
  assumes "QNetwork_init W state_size a_size sd fc_units = Inr net"
    and "DuelingQNetwork_init W X state_size a_size sd fc_units = Inr dnet"
    and "length x = nat state_size"
  shows "forward_dueling dnet (T1 x) = Inl IndexError
       \<and> (\<exists>e. forward_dueling d (T1 y) = Inl e)
       \<and> (\<exists>q. forward net (T1 x) = Inr (T1 q) \<and> int (length q) = a_size)"
proof -
  obtain v q where "dueling_heads dnet (T1 x) = Inr (T1 v, T1 q)"
    using dueling_heads_T1 [OF assms(2) assms(3)] by blast
  then have a: "forward_dueling dnet (T1 x) = Inl IndexError"
    by (simp add: forward_dueling_def)
  have c: "\<exists>q. forward net (T1 x) = Inr (T1 q) \<and> int (length q) = a_size"
    using forward_shape [OF assms(1), of x "[]"] assms(3) by blast
  show ?thesis using a c forward_dueling_T1_fails [of d y] by blast
qed

theorem C10_dueling_needs_batch_witness:
  "QNetwork_init demo_values 2 2 0 (PyList [PyInt 2, PyInt 2])
     = Inr (projr (QNetwork_init demo_values 2 2 0 (PyList [PyInt 2, PyInt 2])))
   \<and> DuelingQNetwork_init demo_values demo_xavier 2 2 0 (PyList [PyInt 2, PyInt 2]) = Inr demo_dnet
   \<and> forward_dueling demo_dnet (T1 [5, 7]) = Inl IndexError
   \<and> forward (projr (QNetwork_init demo_values 2 2 0 (PyList [PyInt 2, PyInt 2]))) (T1 [5, 7])
       = Inr (T1 [5, 7])
   \<and> forward_dueling demo_dnet (T2 [[5, 7]]) = Inr (T2 [[2, 4]])"
proof -
  have i: "QNetwork_init demo_values 2 2 0 (PyList [PyInt 2, PyInt 2])
     = Inr (projr (QNetwork_init demo_values 2 2 0 (PyList [PyInt 2, PyInt 2])))" by code_simp
  have x: "length [5, 7 :: real] = nat 2" by simp
  have f: "forward (projr (QNetwork_init demo_values 2 2 0 (PyList [PyInt 2, PyInt 2]))) (T1 [5, 7])
       = Inr (T1 [5, 7])" by code_simp
  have b: "forward_dueling demo_dnet (T2 [[5, 7]]) = Inr (T2 [[2, 4]])" by code_simp
  show ?thesis using C10_dueling_needs_batch [OF i demo_dnet_init x] i demo_dnet_init f b by blast
qed

subsection \<open>Construction\<close>




end
